theory Spec2Isabelle
  imports Main
begin

section \<open>Python string primitives used by the converters\<close>

text \<open>
  A Python \<open>str\<close> is modelled as a \<open>string\<close>; one \<open>char\<close> stands for one code point
  (the Latin-1 range). \<open>isspace\<close> is the set of code points below 256 that
  \<open>str.strip()\<close> and \<open>str.split()\<close> treat as whitespace: U+0009..U+000D,
  U+001C..U+0020, U+0085 and U+00A0.
\<close>

definition isspace :: "char \<Rightarrow> bool" where
  "isspace c =
     (let n = (of_char c :: nat)
      in (9 \<le> n \<and> n \<le> 13) \<or> (28 \<le> n \<and> n \<le> 32) \<or> n = 133 \<or> n = 160)"

definition strip :: "string \<Rightarrow> string" where
  \<comment> \<open>\<open>s.strip()\<close>\<close>
  "strip s = rev (dropWhile isspace (rev (dropWhile isspace s)))"

primrec split_on :: "(char \<Rightarrow> bool) \<Rightarrow> string \<Rightarrow> string list" where
  \<comment> \<open>the pieces between separator characters; always at least one piece\<close>
  "split_on P [] = [[]]"
| "split_on P (c # cs) =
     (if P c then [] # split_on P cs
      else (case split_on P cs of [] \<Rightarrow> [[c]] | w # ws \<Rightarrow> (c # w) # ws))"

definition split_chr :: "char \<Rightarrow> string \<Rightarrow> string list" where
  \<comment> \<open>\<open>s.split(sep)\<close> for a one-character separator\<close>
  "split_chr sep s = split_on (\<lambda>c. c = sep) s"

definition split_ws :: "string \<Rightarrow> string list" where
  \<comment> \<open>\<open>s.split()\<close>: the maximal whitespace-free runs\<close>
  "split_ws s = filter (\<lambda>w. w \<noteq> []) (split_on isspace s)"

fun join :: "string \<Rightarrow> string list \<Rightarrow> string" where
  \<comment> \<open>\<open>sep.join(xs)\<close>\<close>
  "join sep [] = []"
| "join sep [x] = x"
| "join sep (x # y # ys) = x @ sep @ join sep (y # ys)"

definition replace_chr :: "char \<Rightarrow> string \<Rightarrow> string \<Rightarrow> string" where
  \<comment> \<open>\<open>s.replace(old, new)\<close> for a one-character \<open>old\<close>\<close>
  "replace_chr old new s = concat (map (\<lambda>c. if c = old then new else [c]) s)"

fun str_nat :: "nat \<Rightarrow> string" where
  \<comment> \<open>the decimal rendering of a number inside an f-string\<close>
  "str_nat n =
     (if n < 10 then [''0123456789'' ! n]
      else str_nat (n div 10) @ [''0123456789'' ! (n mod 10)])"

declare str_nat.simps [simp del]

section \<open>Errors\<close>

text \<open>
  Exceptions are values. \<open>LibraryFault\<close> is any \<open>Exception\<close> raised inside a third-party
  library call (PyMuPDF, pytesseract, Pillow, python-pptx, openpyxl) or by file I/O.
\<close>

datatype error =
    FileNotFoundError
  | ValueError
  | NotADirectoryError
  | AttributeError
  | KeyError
  | LibraryFault string

section \<open>pdf\_ocr\_to\_markdown.py\<close>

subsection \<open>extract\_text\_from\_page\<close>

text \<open>
  A page is what the extractor can observe of it: the outcome of
  \<open>page.get_text("text")\<close>, and the outcome of the recognition pipeline
  (\<open>get_pixmap(dpi=300)\<close>, \<open>tobytes\<close>, \<open>Image.open\<close>, \<open>image_to_string\<close>), either of which
  may raise. The module-level flag \<open>OCR_AVAILABLE\<close> is the first argument.
\<close>

record page =
  get_text :: "error + string"
  image_to_string :: "error + string"

definition try_ocr :: "page \<Rightarrow> string option" where
  \<comment> \<open>the \<open>try\<close> block: \<open>Some\<close> when it returns, \<open>None\<close> when it falls through\<close>
  "try_ocr pg =
     (case image_to_string pg of
        Inl e \<Rightarrow> None
      | Inr raw \<Rightarrow> (let ocr_text = strip raw in if ocr_text \<noteq> [] then Some ocr_text else None))"

definition extract_text_from_page :: "bool \<Rightarrow> page \<Rightarrow> error + (string \<times> string)" where
  "extract_text_from_page ocr_available pg =
     (case get_text pg of
        Inl e \<Rightarrow> Inl e
      | Inr raw \<Rightarrow>
          (let text = strip raw in
           if length text > 50 then Inr (text, ''text'')
           else
             (case (if ocr_available then try_ocr pg else None) of
                Some ocr_text \<Rightarrow> Inr (ocr_text, ''ocr'')
              | None \<Rightarrow> Inr (text, if text \<noteq> [] then ''text'' else ''none''))))"

subsection \<open>clean\_text\_for\_markdown\<close>

definition clean_line :: "string \<Rightarrow> string" where
  \<comment> \<open>the body of the first loop: what is appended to \<open>cleaned_lines\<close> for one line\<close>
  "clean_line line0 =
     (let line = strip line0
      in if line = [] then [] else join '' '' (split_ws line))"

fun limit_blank_lines :: "nat \<Rightarrow> string list \<Rightarrow> string list" where
  \<comment> \<open>the second loop; the first argument is \<open>blank_count\<close>\<close>
  "limit_blank_lines blank_count [] = []"
| "limit_blank_lines blank_count (line # rest) =
     (if line = [] then
        (if blank_count + 1 \<le> 2 then line # limit_blank_lines (blank_count + 1) rest
         else limit_blank_lines (blank_count + 1) rest)
      else line # limit_blank_lines 0 rest)"

definition clean_text_for_markdown :: "string \<Rightarrow> string" where
  "clean_text_for_markdown text =
     (let lines = split_chr CHR ''\<newline>'' text;
          cleaned_lines = map clean_line lines;
          result = limit_blank_lines 0 cleaned_lines
      in join ''\<newline>'' result)"

subsection \<open>Paths and the file system\<close>

text \<open>
  A \<open>pathlib.Path\<close> is the three parts the converters read: the parent directory, the
  stem and the suffix of the final component. The file system is what a conversion
  observes of it: whether a path exists, what opening it as a document gives (or the
  fault raised on a malformed file), and whether writing the output raises.
\<close>

record path =
  parent :: string
  stem :: string
  suffix :: string

definition name :: "path \<Rightarrow> string" where
  "name p = stem p @ suffix p"

definition with_suffix :: "path \<Rightarrow> string \<Rightarrow> path" where
  "with_suffix p s = p\<lparr>suffix := s\<rparr>"

definition lower_chr :: "char \<Rightarrow> char" where
  "lower_chr c =
     (let n = (of_char c :: nat)
      in if (65 \<le> n \<and> n \<le> 90) \<or> (192 \<le> n \<and> n \<le> 222 \<and> n \<noteq> 215) then char_of (n + 32) else c)"

definition lower :: "string \<Rightarrow> string" where
  \<comment> \<open>\<open>s.lower()\<close>\<close>
  "lower s = map lower_chr s"

record 'doc filesystem =
  exists :: "path \<Rightarrow> bool"
  open_document :: "path \<Rightarrow> error + 'doc"
  write_text :: "path \<Rightarrow> string \<Rightarrow> error option"

record folder =
  is_dir :: bool
  glob :: "string \<Rightarrow> path list"

subsection \<open>convert\_pdf\_to\_markdown\<close>

record pdf_document =
  metadata :: "string \<rightharpoonup> string"
  pages :: "page list"

definition metadata_get :: "pdf_document \<Rightarrow> string \<Rightarrow> string" where
  \<comment> \<open>\<open>doc.metadata.get(key, '')\<close>\<close>
  "metadata_get doc key = (case metadata doc key of None \<Rightarrow> [] | Some v \<Rightarrow> v)"

fun process_pages ::
  "bool \<Rightarrow> nat \<Rightarrow> nat \<Rightarrow> page list \<Rightarrow> string list \<times> (string \<Rightarrow> nat)
     \<Rightarrow> error + (string list \<times> (string \<Rightarrow> nat))" where
  \<comment> \<open>the page loop: arguments \<open>OCR_AVAILABLE\<close>, \<open>total_pages\<close>, \<open>page_num\<close>, the pages
     left, and the state (\<open>md_parts\<close>, \<open>methods_used\<close>)\<close>
  "process_pages ocr_available total_pages page_num [] st = Inr st"
| "process_pages ocr_available total_pages page_num (pg # rest) (md_parts, methods_used) =
     (case extract_text_from_page ocr_available pg of
        Inl e \<Rightarrow> Inl e
      | Inr (text, method) \<Rightarrow>
          (let methods_used1 = methods_used(method := methods_used method + 1);
               md_parts1 =
                 (if text \<noteq> [] then
                    md_parts
                    @ (if total_pages > 1 then [''## Page '' @ str_nat page_num] else [])
                    @ [clean_text_for_markdown text]
                    @ (if total_pages > 1 then [''---''] else [])
                  else md_parts)
           in process_pages ocr_available total_pages (page_num + 1) rest
                (md_parts1, methods_used1)))"

definition pdf_header :: "(string \<Rightarrow> string) \<Rightarrow> pdf_document \<Rightarrow> path \<Rightarrow> string list" where
  \<comment> \<open>\<open>md_parts\<close> before the page loop; \<open>str_title\<close> is Python's \<open>str.title\<close>\<close>
  "pdf_header str_title doc input_path =
     (let t = metadata_get doc ''title'';
          doc_title0 = (if t \<noteq> [] then t else stem input_path);
          doc_title =
            str_title (replace_chr CHR ''-'' '' '' (replace_chr CHR ''_'' '' '' doc_title0));
          author = metadata_get doc ''author''
      in [''# '' @ doc_title, ''*Converted from: '' @ name input_path @ ''*'']
         @ (if author \<noteq> [] then [''*Author: '' @ author @ ''*''] else [])
         @ [''---''])"

definition convert_pdf_to_markdown ::
  "(string \<Rightarrow> string) \<Rightarrow> bool \<Rightarrow> pdf_document filesystem \<Rightarrow> path \<Rightarrow> path option
     \<Rightarrow> error + (path \<times> string)" where
  \<comment> \<open>returns the output path together with the content written to it\<close>
  "convert_pdf_to_markdown str_title ocr_available fs input_path output_path0 =
     (if \<not> exists fs input_path then Inl FileNotFoundError
      else if lower (suffix input_path) \<noteq> ''.pdf'' then Inl ValueError
      else
        (let output_path =
               (case output_path0 of None \<Rightarrow> with_suffix input_path ''.md'' | Some p \<Rightarrow> p)
         in case open_document fs input_path of
              Inl e \<Rightarrow> Inl e
            | Inr doc \<Rightarrow>
                (case process_pages ocr_available (length (pages doc)) 1 (pages doc)
                        (pdf_header str_title doc input_path,
                         (\<lambda>k. 0)) of
                   Inl e \<Rightarrow> Inl e
                 | Inr (md_parts, methods_used) \<Rightarrow>
                     (let markdown_content = join ''\<newline>\<newline>'' md_parts
                      in case write_text fs output_path markdown_content of
                           Some e \<Rightarrow> Inl e
                         | None \<Rightarrow> Inr (output_path, markdown_content)))))"

subsection \<open>batch\_convert\<close>

fun batch_loop :: "(path \<Rightarrow> error + (path \<times> string)) \<Rightarrow> path list \<Rightarrow> path list \<Rightarrow> path list" where
  \<comment> \<open>the \<open>for\<close> loop with its \<open>try\<close>/\<open>except Exception\<close>; the last argument is \<open>converted\<close>\<close>
  "batch_loop convert [] converted = converted"
| "batch_loop convert (file # rest) converted =
     (case convert file of
        Inr (output_path, content) \<Rightarrow> batch_loop convert rest (converted @ [output_path])
      | Inl e \<Rightarrow> batch_loop convert rest converted)"

definition batch_convert_pdf ::
  "(string \<Rightarrow> string) \<Rightarrow> bool \<Rightarrow> pdf_document filesystem \<Rightarrow> folder \<Rightarrow> error + path list" where
  "batch_convert_pdf str_title ocr_available fs fld =
     (if \<not> is_dir fld then Inl NotADirectoryError
      else
        (let pdf_files = glob fld ''*.pdf''
         in if pdf_files = [] then Inr []
            else Inr (batch_loop
                        (\<lambda>pdf_file. convert_pdf_to_markdown str_title ocr_available fs pdf_file None)
                        pdf_files [])))"

section \<open>pptx\_to\_markdown.py\<close>

text \<open>
  A shape is what the converter reads of it: \<open>shape_text\<close> is \<open>None\<close> when the object has no
  attribute \<open>text\<close>; \<open>table\<close> holds \<open>cell.text\<close> for every cell of every row and is
  read only when \<open>has_table\<close>. \<open>shape_id\<close> stands for the identity that \<open>==\<close> compares.
\<close>

record shape =
  shape_id :: nat
  shape_text :: "string option"
  has_table :: bool
  table :: "string list list"


record slide =
  title :: "shape option"
  shapes :: "shape list"
  has_notes_slide :: bool
  notes_text_frame :: "string option"

record presentation =
  slides :: "slide list"

definition escaped_pipe :: string where
  \<comment> \<open>the two characters backslash, pipe\<close>
  "escaped_pipe = [CHR 0x5C, CHR ''|'']"

definition table_line :: "string list \<Rightarrow> string" where
  \<comment> \<open>\<open>"| " + " | ".join(cells) + " |"\<close>\<close>
  "table_line cells = ''| '' @ join '' | '' cells @ '' |''"

fun pptx_table_rows :: "nat \<Rightarrow> string list list \<Rightarrow> string list" where
  \<comment> \<open>the row loop of \<open>convert_table_to_markdown\<close>, from \<open>row_idx\<close> on\<close>
  "pptx_table_rows row_idx [] = []"
| "pptx_table_rows row_idx (row # rest) =
     (let cells = map (\<lambda>cell. replace_chr CHR ''|'' escaped_pipe (strip cell)) row
      in [table_line cells]
         @ (if row_idx = 0 then [table_line (replicate (length cells) ''---'')] else [])
         @ pptx_table_rows (row_idx + 1) rest)"

definition convert_table_to_markdown :: "string list list \<Rightarrow> string" where
  "convert_table_to_markdown tbl = join ''\<newline>'' (pptx_table_rows 0 tbl)"

definition extract_text_from_shape :: "shape \<Rightarrow> string" where
  "extract_text_from_shape sh =
     (let text_parts1 =
            (case shape_text sh of
               Some t \<Rightarrow> if strip t \<noteq> [] then [strip t] else []
             | None \<Rightarrow> []);
          text_parts2 =
            (if has_table sh then text_parts1 @ [convert_table_to_markdown (table sh)]
             else text_parts1)
      in join ''\<newline>'' text_parts2)"

fun slide_content_parts :: "shape option \<Rightarrow> shape list \<Rightarrow> string list" where
  \<comment> \<open>the shape loop of \<open>convert_slide_to_markdown\<close>\<close>
  "slide_content_parts ttl [] = []"
| "slide_content_parts ttl (sh # rest) =
     (if map_option shape_id ttl = Some (shape_id sh) then slide_content_parts ttl rest
      else
        (let text = extract_text_from_shape sh
         in (if text \<noteq> [] then [text] else []) @ slide_content_parts ttl rest))"

definition convert_slide_to_markdown :: "slide \<Rightarrow> nat \<Rightarrow> error + string" where
  "convert_slide_to_markdown sl slide_number =
     (let md_parts0 = [''## Slide '' @ str_nat slide_number]
      in case (case title sl of
                 None \<Rightarrow> Inr []
               | Some ts \<Rightarrow>
                   (case shape_text ts of
                      None \<Rightarrow> Inl AttributeError
                    | Some t \<Rightarrow> Inr (if strip t \<noteq> [] then [''### '' @ strip t] else []))) of
           Inl e \<Rightarrow> Inl e
         | Inr title_part \<Rightarrow>
             (let content_parts = slide_content_parts (title sl) (shapes sl);
                  content_part =
                    (if content_parts \<noteq> [] then [join ''\<newline>'' content_parts] else []);
                  notes_part =
                    (if has_notes_slide sl then
                       (case notes_text_frame sl of
                          None \<Rightarrow> []
                        | Some t \<Rightarrow>
                            if strip t \<noteq> []
                            then [''\<newline>**Speaker Notes:**'', ''_'' @ strip t @ ''_'']
                            else [])
                     else [])
              in Inr (join ''\<newline>\<newline>''
                        (md_parts0 @ title_part @ content_part @ notes_part))))"

fun process_slides :: "nat \<Rightarrow> slide list \<Rightarrow> string list \<Rightarrow> error + string list" where
  \<comment> \<open>the slide loop: \<open>slide_number\<close>, the slides left, \<open>md_parts\<close>\<close>
  "process_slides slide_number [] md_parts = Inr md_parts"
| "process_slides slide_number (sl # rest) md_parts =
     (case convert_slide_to_markdown sl slide_number of
        Inl e \<Rightarrow> Inl e
      | Inr slide_md \<Rightarrow> process_slides (slide_number + 1) rest (md_parts @ [slide_md, ''---'']))"

definition file_header :: "(string \<Rightarrow> string) \<Rightarrow> path \<Rightarrow> string list" where
  \<comment> \<open>the title and provenance lines of the slide and workbook converters\<close>
  "file_header str_title input_path =
     [''# '' @ str_title (replace_chr CHR ''-'' '' '' (replace_chr CHR ''_'' '' '' (stem input_path))),
      ''*Converted from: '' @ name input_path @ ''*'']"

definition convert_pptx_to_markdown ::
  "(string \<Rightarrow> string) \<Rightarrow> presentation filesystem \<Rightarrow> path \<Rightarrow> path option
     \<Rightarrow> error + (path \<times> string)" where
  "convert_pptx_to_markdown str_title fs input_path output_path0 =
     (if \<not> exists fs input_path then Inl FileNotFoundError
      else if \<not> lower (suffix input_path) = ''.pptx'' then Inl ValueError
      else
        (let output_path =
               (case output_path0 of None \<Rightarrow> with_suffix input_path ''.md'' | Some p \<Rightarrow> p)
         in case open_document fs input_path of
              Inl e \<Rightarrow> Inl e
            | Inr prs \<Rightarrow>
                (case process_slides 1 (slides prs) (file_header str_title input_path @ [''---'']) of
                   Inl e \<Rightarrow> Inl e
                 | Inr md_parts \<Rightarrow>
                     (let markdown_content = join ''\<newline>\<newline>'' md_parts
                      in case write_text fs output_path markdown_content of
                           Some e \<Rightarrow> Inl e
                         | None \<Rightarrow> Inr (output_path, markdown_content)))))"

definition batch_convert_pptx ::
  "(string \<Rightarrow> string) \<Rightarrow> presentation filesystem \<Rightarrow> folder \<Rightarrow> error + path list" where
  "batch_convert_pptx str_title fs fld =
     (if \<not> is_dir fld then Inl NotADirectoryError
      else
        (let pptx_files = glob fld ''*.pptx''
         in if pptx_files = [] then Inr []
            else Inr (batch_loop
                        (\<lambda>pptx_file. convert_pptx_to_markdown str_title fs pptx_file None)
                        pptx_files [])))"

section \<open>xlsx\_to\_markdown.py\<close>

text \<open>
  A cell value is \<open>None\<close> or \<open>Some s\<close>, where \<open>s\<close> is what \<open>str(value)\<close> gives for the
  scalar the cell holds. A workbook lists its sheets in order, and \<open>wb.sheetnames\<close> names
  all of them: a worksheet, which is the list of rows that \<open>iter_rows(values_only=True)\<close>
  yields, or a chart sheet, which has no method \<open>iter_rows\<close>.
\<close>

type_synonym cell = "string option"

datatype sheet = Worksheet "cell list list" | Chartsheet

record workbook =
  sheets :: "(string \<times> sheet) list"

definition iter_rows :: "sheet \<Rightarrow> error + cell list list" where
  \<comment> \<open>\<open>list(sheet.iter_rows(values_only=True))\<close>\<close>
  "iter_rows sh = (case sh of Worksheet rows \<Rightarrow> Inr rows | Chartsheet \<Rightarrow> Inl AttributeError)"

definition sheetnames :: "workbook \<Rightarrow> string list" where
  "sheetnames wb = map fst (sheets wb)"

definition clean_cell_value :: "cell \<Rightarrow> string" where
  "clean_cell_value v =
     (case v of
        None \<Rightarrow> []
      | Some s \<Rightarrow>
          (let text1 = strip s;
               text2 = replace_chr CHR ''|'' escaped_pipe text1;
               text3 = replace_chr CHR ''\<newline>'' ''<br>'' text2
           in text3))"

fun last_used :: "nat \<Rightarrow> cell list \<Rightarrow> nat option" where
  \<comment> \<open>the inner loop over \<open>enumerate(reversed(row))\<close>: the index \<open>i\<close> at which it breaks\<close>
  "last_used i [] = None"
| "last_used i (c # cs) = (if c \<noteq> None then Some i else last_used (i + 1) cs)"

fun count_columns :: "nat \<Rightarrow> cell list list \<Rightarrow> nat" where
  \<comment> \<open>the outer loop; the first argument is \<open>max_cols\<close>\<close>
  "count_columns max_cols [] = max_cols"
| "count_columns max_cols (row # rest) =
     (case last_used 0 (rev row) of
        Some i \<Rightarrow> count_columns (max max_cols (length row - i)) rest
      | None \<Rightarrow> count_columns max_cols rest)"

fun xlsx_table_rows :: "nat \<Rightarrow> nat \<Rightarrow> cell list list \<Rightarrow> string list" where
  \<comment> \<open>the table loop, from \<open>row_idx\<close> on\<close>
  "xlsx_table_rows max_cols row_idx [] = []"
| "xlsx_table_rows max_cols row_idx (row # rest) =
     (let cells0 = take max_cols row;
          cells = cells0 @ replicate (max_cols - length cells0) None;
          cleaned_cells = map clean_cell_value cells
      in [table_line cleaned_cells]
         @ (if row_idx = 0 then [table_line (replicate max_cols ''---'')] else [])
         @ xlsx_table_rows max_cols (row_idx + 1) rest)"

text \<open>
  \<open>convert_sheet_to_markdown\<close> is given the rows that its call of \<open>iter_rows\<close> returned;
  that call, the only step of the function that can raise, is made in the sheet loop
  below, where its fault ends the loop as it ends the conversion in the source.
\<close>

definition convert_sheet_to_markdown :: "cell list list \<Rightarrow> string \<Rightarrow> string" where
  "convert_sheet_to_markdown rows0 sheet_name =
     (let md_parts = [''## '' @ sheet_name]
      in if rows0 = [] then join ''\<newline>\<newline>'' (md_parts @ [''*Empty sheet*''])
         else
           (let rows = filter (\<lambda>row. list_ex (\<lambda>cell. cell \<noteq> None) row) rows0
            in if rows = [] then join ''\<newline>\<newline>'' (md_parts @ [''*Empty sheet*''])
               else
                 (let max_cols = count_columns 0 rows
                  in if max_cols = 0 then join ''\<newline>\<newline>'' (md_parts @ [''*Empty sheet*''])
                     else join ''\<newline>\<newline>''
                            (md_parts @ [join ''\<newline>'' (xlsx_table_rows max_cols 0 rows)]))))"

fun process_sheets :: "(string \<times> sheet) list \<Rightarrow> string list \<Rightarrow> string list \<Rightarrow> error + string list" where
  \<comment> \<open>the sheet loop: the workbook's sheets, the names left, \<open>md_parts\<close>\<close>
  "process_sheets shs [] md_parts = Inr md_parts"
| "process_sheets shs (sheet_name # rest) md_parts =
     (case map_of shs sheet_name of
        None \<Rightarrow> Inl KeyError
      | Some sheet \<Rightarrow>
          (case iter_rows sheet of
             Inl e \<Rightarrow> Inl e
           | Inr rows0 \<Rightarrow>
               process_sheets shs rest
                 (md_parts @ [convert_sheet_to_markdown rows0 sheet_name, ''---''])))"

definition contents_lines :: "string list \<Rightarrow> string list" where
  \<comment> \<open>the table of contents, emitted for more than one sheet\<close>
  "contents_lines names =
     (if length names > 1 then
        [''\<newline>## Contents'']
        @ map (\<lambda>sheet_name.
                 ''- ['' @ sheet_name @ ''](#''
                 @ replace_chr CHR '' '' ''-'' (lower sheet_name) @ '')'') names
      else [])"

definition convert_xlsx_to_markdown ::
  "(string \<Rightarrow> string) \<Rightarrow> workbook filesystem \<Rightarrow> path \<Rightarrow> path option
     \<Rightarrow> error + (path \<times> string)" where
  "convert_xlsx_to_markdown str_title fs input_path output_path0 =
     (if \<not> exists fs input_path then Inl FileNotFoundError
      else if lower (suffix input_path) \<notin> set [''.xlsx'', ''.xls''] then Inl ValueError
      else
        (let output_path =
               (case output_path0 of None \<Rightarrow> with_suffix input_path ''.md'' | Some p \<Rightarrow> p)
         in case open_document fs input_path of
              Inl e \<Rightarrow> Inl e
            | Inr wb \<Rightarrow>
                (case process_sheets (sheets wb) (sheetnames wb)
                        (file_header str_title input_path @ contents_lines (sheetnames wb)
                         @ [''---'']) of
                   Inl e \<Rightarrow> Inl e
                 | Inr md_parts \<Rightarrow>
                     (let markdown_content = join ''\<newline>\<newline>'' md_parts
                      in case write_text fs output_path markdown_content of
                           Some e \<Rightarrow> Inl e
                         | None \<Rightarrow> Inr (output_path, markdown_content)))))"

definition batch_convert_xlsx ::
  "(string \<Rightarrow> string) \<Rightarrow> workbook filesystem \<Rightarrow> folder \<Rightarrow> error + path list" where
  "batch_convert_xlsx str_title fs fld =
     (if \<not> is_dir fld then Inl NotADirectoryError
      else
        (let xlsx_files = glob fld ''*.xlsx'' @ glob fld ''*.xls''
         in if xlsx_files = [] then Inr []
            else Inr (batch_loop
                        (\<lambda>xlsx_file. convert_xlsx_to_markdown str_title fs xlsx_file None)
                        xlsx_files [])))"

section \<open>Auxiliary notions for the properties\<close>

definition tokens :: "string list \<Rightarrow> bool" where
  \<comment> \<open>words as \<open>str.split()\<close> returns them: non-empty and free of whitespace\<close>
  "tokens ws = (\<forall>w\<in>set ws. w \<noteq> [] \<and> (\<forall>c\<in>set w. \<not> isspace c))"

fun delimiting_pipes :: "bool \<Rightarrow> string \<Rightarrow> nat" where
  \<comment> \<open>the column-delimiting pipes of a line: those not directly preceded by a backslash;
     the flag says whether the previous character was a backslash\<close>
  "delimiting_pipes esc [] = 0"
| "delimiting_pipes esc (c # cs) =
     (if c = CHR ''|'' \<and> \<not> esc then 1 else 0) + delimiting_pipes (c = CHR 0x5C) cs"

section \<open>Properties\<close>

subsection \<open>Splitting and joining\<close>


lemma split_on_not_Nil: "split_on P s \<noteq> []"
  by (induction s) (auto split: list.splits)

lemma split_on_free_all: "\<forall>w\<in>set (split_on P s). \<forall>c\<in>set w. \<not> P c"
  by (induction s) (auto split: list.splits)

lemma split_on_free: "w \<in> set (split_on P s) \<Longrightarrow> c \<in> set w \<Longrightarrow> \<not> P c"
  using split_on_free_all by blast

lemma split_on_append_sep:
  "\<forall>c\<in>set x. \<not> P c \<Longrightarrow> P sep \<Longrightarrow> split_on P (x @ sep # r) = x # split_on P r"
  by (induction x) auto

lemma split_on_no_sep: "\<forall>c\<in>set x. \<not> P c \<Longrightarrow> split_on P x = [x]"
  by (induction x) auto

lemma split_on_join:
  "xs \<noteq> [] \<Longrightarrow> \<forall>w\<in>set xs. \<forall>c\<in>set w. \<not> P c \<Longrightarrow> P sep \<Longrightarrow>
   split_on P (join [sep] xs) = xs"
proof (induction "[sep]" xs rule: join.induct)
  case 1
  then show ?case by simp
next
  case (2 x)
  then show ?case by (simp add: split_on_no_sep)
next
  case (3 x y ys)
  then show ?case by (simp add: split_on_append_sep)
qed

lemma join_chars: "c \<in> set (join sep xs) \<Longrightarrow> c \<in> set sep \<or> (\<exists>w\<in>set xs. c \<in> set w)"
  by (induction sep xs rule: join.induct) auto

lemma hd_join: "xs \<noteq> [] \<Longrightarrow> hd xs \<noteq> [] \<Longrightarrow> hd (join sep xs) = hd (hd xs)"
  by (induction sep xs rule: join.induct) auto

lemma join_not_Nil_last: "xs \<noteq> [] \<Longrightarrow> last xs \<noteq> [] \<Longrightarrow> join sep xs \<noteq> []"
  by (induction sep xs rule: join.induct) auto

lemma last_join: "xs \<noteq> [] \<Longrightarrow> last xs \<noteq> [] \<Longrightarrow> last (join sep xs) = last (last xs)"
proof (induction sep xs rule: join.induct)
  case (3 sep x y ys)
  then have "join sep (y # ys) \<noteq> []" by (intro join_not_Nil_last) auto
  with 3 show ?case by simp
qed auto

lemma join_eq_Nil: "xs \<noteq> [] \<Longrightarrow> hd xs \<noteq> [] \<Longrightarrow> join sep xs \<noteq> []"
  by (induction sep xs rule: join.induct) auto

lemma strip_id:
  assumes "s = [] \<or> (\<not> isspace (hd s) \<and> \<not> isspace (last s))"
  shows "strip s = s"
proof (cases "s = []")
  case True
  then show ?thesis by (simp add: strip_def)
next
  case False
  with assms have h: "\<not> isspace (hd s)" and l: "\<not> isspace (last s)" by auto
  from h have "dropWhile isspace s = s" by (simp add: dropWhile_eq_self_iff)
  moreover from l False have "dropWhile isspace (rev s) = rev s"
    by (simp add: dropWhile_eq_self_iff hd_rev)
  ultimately show ?thesis by (simp add: strip_def)
qed

lemma isspace_space: "isspace CHR '' ''"
  by (simp add: isspace_def)

lemma isspace_newline: "isspace CHR ''\<newline>''"
  by (simp add: isspace_def)


lemma tokens_split_ws: "tokens (split_ws s)"
  by (auto simp: tokens_def split_ws_def dest: split_on_free)

lemma split_ws_join: "tokens ws \<Longrightarrow> split_ws (join '' '' ws) = ws"
proof (cases "ws = []")
  case True
  then show ?thesis by (simp add: split_ws_def)
next
  case False
  assume t: "tokens ws"
  with False have "split_on isspace (join [CHR '' ''] ws) = ws"
    by (intro split_on_join) (auto simp: tokens_def isspace_space)
  moreover from t have "filter (\<lambda>w. w \<noteq> []) ws = ws"
    by (auto simp: tokens_def intro: filter_True)
  ultimately show ?thesis by (simp add: split_ws_def)
qed

lemma strip_join: "tokens ws \<Longrightarrow> strip (join '' '' ws) = join '' '' ws"
proof (cases "ws = []")
  case True
  then show ?thesis by (simp add: strip_def)
next
  case False
  assume t: "tokens ws"
  from False have "hd ws \<in> set ws" "last ws \<in> set ws" by simp_all
  with t have h: "hd ws \<noteq> []" "\<not> isspace (hd (hd ws))" and l: "last ws \<noteq> []" "\<not> isspace (last (last ws))"
    by (auto simp: tokens_def)
  with False show ?thesis
    by (intro strip_id) (simp add: hd_join last_join)
qed

lemma clean_line_join: "tokens ws \<Longrightarrow> clean_line (join '' '' ws) = join '' '' ws"
  by (simp add: clean_line_def strip_join split_ws_join Let_def)

lemma clean_line_is_join: "\<exists>ws. tokens ws \<and> clean_line x = join '' '' ws"
proof (cases "strip x = []")
  case True
  then have "clean_line x = join '' '' []" by (simp add: clean_line_def)
  moreover have "tokens []" by (simp add: tokens_def)
  ultimately show ?thesis by blast
next
  case False
  then have "clean_line x = join '' '' (split_ws (strip x))" by (simp add: clean_line_def)
  then show ?thesis using tokens_split_ws by blast
qed

lemma clean_line_idem: "clean_line (clean_line x) = clean_line x"
  using clean_line_is_join [of x] clean_line_join by auto

lemma clean_line_no_newline: "c \<in> set (clean_line x) \<Longrightarrow> c \<noteq> CHR ''\<newline>''"
proof
  assume c: "c \<in> set (clean_line x)" and n: "c = CHR ''\<newline>''"
  obtain ws where t: "tokens ws" and e: "clean_line x = join '' '' ws"
    using clean_line_is_join by blast
  from c e have "c \<in> set '' '' \<or> (\<exists>w\<in>set ws. c \<in> set w)" by (auto dest: join_chars)
  with n t show False using isspace_newline by (auto simp: tokens_def)
qed

lemma limit_blank_lines_subset: "set (limit_blank_lines k ls) \<subseteq> set ls"
  by (induction ls arbitrary: k) auto

lemma limit_blank_lines_not_Nil: "ls \<noteq> [] \<Longrightarrow> limit_blank_lines 0 ls \<noteq> []"
  by (cases ls) auto

lemma limit_blank_lines_idem:
  "j \<le> k \<Longrightarrow> limit_blank_lines j (limit_blank_lines k ls) = limit_blank_lines k ls"
proof (induction ls arbitrary: j k)
  case Nil
  then show ?case by simp
next
  case (Cons l ls)
  show ?case
  proof (cases "l = []")
    case False
    then show ?thesis using Cons.IH [of 0 0] by simp
  next
    case True
    show ?thesis
    proof (cases "k + 1 \<le> 2")
      case True
      with \<open>l = []\<close> Cons.prems Cons.IH [of "j + 1" "k + 1"] show ?thesis by simp
    next
      case False
      with \<open>l = []\<close> Cons.prems Cons.IH [of j "k + 1"] show ?thesis by simp
    qed
  qed
qed

text \<open>
  C7. The text normalizer is idempotent: cleaning an already cleaned text returns it
  unchanged, for every input text.
\<close>

theorem clean_text_for_markdown_idempotent:
  "clean_text_for_markdown (clean_text_for_markdown t) = clean_text_for_markdown t"
proof -
  define L where "L = map clean_line (split_chr CHR ''\<newline>'' t)"
  define R where "R = limit_blank_lines 0 L"
  have out: "clean_text_for_markdown t = join ''\<newline>'' R"
    by (simp add: clean_text_for_markdown_def L_def R_def)
  have "L \<noteq> []" by (simp add: L_def split_chr_def split_on_not_Nil)
  then have R_ne: "R \<noteq> []" by (simp add: R_def limit_blank_lines_not_Nil)
  have R_sub: "set R \<subseteq> clean_line ` set (split_chr CHR ''\<newline>'' t)"
    using limit_blank_lines_subset [of 0 L] by (simp add: R_def L_def)
  then have R_free: "\<forall>w\<in>set R. \<forall>c\<in>set w. \<not> c = CHR ''\<newline>''"
    using clean_line_no_newline by blast
  have split: "split_chr CHR ''\<newline>'' (join ''\<newline>'' R) = R"
    unfolding split_chr_def using R_ne R_free by (intro split_on_join) auto
  have "\<And>w. w \<in> set R \<Longrightarrow> clean_line w = w"
    using R_sub clean_line_idem by auto
  then have "map clean_line R = R"
    by (simp add: map_idI)
  moreover have "limit_blank_lines 0 R = R"
    by (simp add: R_def limit_blank_lines_idem)
  ultimately have "clean_text_for_markdown (join ''\<newline>'' R) = join ''\<newline>'' R"
    by (simp add: clean_text_for_markdown_def split)
  then show ?thesis by (simp add: out)
qed


subsection \<open>The page extractor\<close>

lemma try_ocr_nonempty: "try_ocr pg = Some t \<Longrightarrow> t \<noteq> []"
  by (auto simp: try_ocr_def Let_def split: sum.splits if_splits)

text \<open>
  C10. Whenever the page extractor returns a pair (text, tag), the tag is \<open>none\<close> exactly
  when the text is empty, and the tag is one of \<open>text\<close>, \<open>ocr\<close>, \<open>none\<close>: so a non-empty
  text is tagged \<open>text\<close> or \<open>ocr\<close>, and an empty text is tagged \<open>none\<close>.
\<close>

theorem extract_tag_none_iff_empty:
  assumes "extract_text_from_page ocr_available pg = Inr (t, tag)"
  shows "(tag = ''none'' \<longleftrightarrow> t = []) \<and> (tag = ''text'' \<or> tag = ''ocr'' \<or> tag = ''none'')"
proof (cases "get_text pg")
  case (Inl e)
  with assms show ?thesis by (simp add: extract_text_from_page_def)
next
  case (Inr raw)
  show ?thesis
  proof (cases "length (strip raw) > 50")
    case True
    with Inr assms have "t = strip raw" "tag = ''text''"
      by (simp_all add: extract_text_from_page_def Let_def)
    with True show ?thesis by auto
  next
    case False
    show ?thesis
    proof (cases "if ocr_available then try_ocr pg else None")
      case None
      with Inr False assms
      have "t = strip raw \<and> tag = (if strip raw \<noteq> [] then ''text'' else ''none'')"
        by (auto simp: extract_text_from_page_def Let_def)
      then show ?thesis by auto
    next
      case (Some o_text)
      with Inr False assms have "t = o_text" "tag = ''ocr''"
        by (simp_all add: extract_text_from_page_def Let_def)
      moreover from Some have "o_text \<noteq> []"
        by (auto dest: try_ocr_nonempty split: if_splits)
      ultimately show ?thesis by auto
    qed
  qed
qed

theorem extract_tag_none_iff_empty_witness:
  "extract_text_from_page True \<lparr>get_text = Inr '' '', image_to_string = Inr ''scan''\<rparr>
     = Inr (''scan'', ''ocr'')
   \<and> (''ocr'' = ''none'' \<longleftrightarrow> ''scan'' = [])"
proof -
  have h: "extract_text_from_page True \<lparr>get_text = Inr '' '', image_to_string = Inr ''scan''\<rparr>
     = Inr (''scan'', ''ocr'')"
    by (simp add: extract_text_from_page_def try_ocr_def strip_def isspace_def Let_def)
  from extract_tag_none_iff_empty [OF h] h show ?thesis by simp
qed

lemma strip_replicate_a: "strip (replicate n CHR ''a'') = replicate n CHR ''a''"
  by (cases n) (auto simp: strip_def isspace_def dropWhile_eq_self_iff hd_rev last_replicate simp flip: replicate_Suc)

lemma extract_long:
  "50 < length (strip raw) \<Longrightarrow>
   extract_text_from_page avail \<lparr>get_text = Inr raw, image_to_string = r\<rparr> = Inr (strip raw, ''text'')"
  by (simp add: extract_text_from_page_def Let_def)

lemma extract_no_ocr:
  "extract_text_from_page False \<lparr>get_text = Inr raw, image_to_string = r\<rparr>
     = Inr (strip raw, if strip raw = [] then ''none'' else ''text'')"
  by (auto simp: extract_text_from_page_def Let_def)

lemma extract_ocr:
  "length (strip raw) \<le> 50 \<Longrightarrow> strip scan \<noteq> [] \<Longrightarrow>
   extract_text_from_page True \<lparr>get_text = Inr raw, image_to_string = Inr scan\<rparr>
     = Inr (strip scan, ''ocr'')"
  by (simp add: extract_text_from_page_def try_ocr_def Let_def)

text \<open>
  C2 (as amended). A page whose trimmed direct text is longer than 50 characters is tagged
  \<open>text\<close> and that trimmed text is returned. With recognition unavailable, any page (so
  one of trimmed length 50 and one of length 49 alike) gets its trimmed direct text back,
  tagged \<open>text\<close> when that text is non-empty and \<open>none\<close> only when it is empty. With
  recognition available, a page of trimmed length at most 50 for which recognition returns
  non-blank text is tagged \<open>ocr\<close>.
\<close>

theorem page_threshold:
  "(50 < length (strip raw) \<longrightarrow>
      extract_text_from_page avail \<lparr>get_text = Inr raw, image_to_string = r\<rparr>
        = Inr (strip raw, ''text''))
   \<and> extract_text_from_page False \<lparr>get_text = Inr raw, image_to_string = r\<rparr>
        = Inr (strip raw, if strip raw = [] then ''none'' else ''text'')
   \<and> (length (strip raw) \<le> 50 \<and> strip scan \<noteq> [] \<longrightarrow>
      extract_text_from_page True \<lparr>get_text = Inr raw, image_to_string = Inr scan\<rparr>
        = Inr (strip scan, ''ocr''))"
  using extract_long extract_no_ocr extract_ocr by simp

theorem page_threshold_witness:
  "extract_text_from_page True \<lparr>get_text = Inr (replicate 51 CHR ''a''), image_to_string = Inr []\<rparr>
     = Inr (replicate 51 CHR ''a'', ''text'')
   \<and> extract_text_from_page False \<lparr>get_text = Inr (replicate 50 CHR ''a''), image_to_string = Inr []\<rparr>
     = Inr (replicate 50 CHR ''a'', ''text'')
   \<and> extract_text_from_page True \<lparr>get_text = Inr (replicate 50 CHR ''a''), image_to_string = Inr ''scan''\<rparr>
     = Inr (''scan'', ''ocr'')"
proof -
  have s: "strip ''scan'' = ''scan''" by (simp add: strip_def isspace_def)
  have a: "replicate 50 CHR ''a'' \<noteq> []" by simp
  from page_threshold [of "replicate 51 CHR ''a''" True "Inr []" "''scan''"]
       page_threshold [of "replicate 50 CHR ''a''" True "Inr []" "''scan''"]
  show ?thesis
    by (simp only: strip_replicate_a s length_replicate a if_False) simp
qed

text \<open>
  Against C2 as stated: with recognition unavailable a page of trimmed length 49 is tagged
  \<open>text\<close>, not \<open>none\<close>; with recognition available and returning text, a page of
  trimmed length exactly 50 is tagged \<open>ocr\<close>, not \<open>text\<close>.
\<close>

theorem threshold_tags_counterexample:
  "length (strip (replicate 49 CHR ''a'')) = 49
   \<and> extract_text_from_page False \<lparr>get_text = Inr (replicate 49 CHR ''a''), image_to_string = Inr []\<rparr>
       = Inr (replicate 49 CHR ''a'', ''text'')
   \<and> length (strip (replicate 50 CHR ''a'')) = 50
   \<and> extract_text_from_page True \<lparr>get_text = Inr (replicate 50 CHR ''a''), image_to_string = Inr ''scan''\<rparr>
       = Inr (''scan'', ''ocr'')"
proof -
  have s: "strip ''scan'' = ''scan''" by (simp add: strip_def isspace_def)
  show ?thesis
    by (simp add: extract_no_ocr extract_ocr strip_replicate_a s)
qed

lemma extract_get_text_fault:
  "extract_text_from_page avail \<lparr>get_text = Inl e, image_to_string = r\<rparr> = Inl e"
  by (simp add: extract_text_from_page_def)

lemma extract_ocr_fault:
  "extract_text_from_page avail \<lparr>get_text = Inr raw, image_to_string = Inl e\<rparr>
     = Inr (strip raw, if strip raw = [] then ''none'' else ''text'')"
  by (auto simp: extract_text_from_page_def try_ocr_def Let_def)

text \<open>
  C1 (as amended). In the page extractor a fault of the recognition step is caught: the
  page falls back to its trimmed direct text, tagged \<open>text\<close> when non-empty and \<open>none\<close>
  when empty. A fault of the direct-text retrieval is not caught: it leaves the extractor
  and ends the page loop of the document.
\<close>

theorem recognition_fault_contained:
  "extract_text_from_page avail \<lparr>get_text = Inr raw, image_to_string = Inl e\<rparr>
     = Inr (strip raw, if strip raw = [] then ''none'' else ''text'')
   \<and> extract_text_from_page avail \<lparr>get_text = Inl e, image_to_string = r\<rparr> = Inl e
   \<and> process_pages avail total_pages page_num
        (\<lparr>get_text = Inl e, image_to_string = r\<rparr> # rest) (md_parts, methods_used) = Inl e"
  by (simp add: extract_get_text_fault extract_ocr_fault)

theorem recognition_fault_contained_witness:
  "extract_text_from_page True \<lparr>get_text = Inr ''abc'', image_to_string = Inl (LibraryFault ''tesseract'')\<rparr>
     = Inr (''abc'', ''text'')
   \<and> extract_text_from_page True
        \<lparr>get_text = Inl (LibraryFault ''tesseract''), image_to_string = Inr []\<rparr>
     = Inl (LibraryFault ''tesseract'')"
proof -
  have s: "strip ''abc'' = ''abc''" by (simp add: strip_def isspace_def)
  from recognition_fault_contained
         [of True "''abc''" "LibraryFault ''tesseract''" "Inr []" 1 1 "[]" "[]" "\<lambda>k. 0"]
  show ?thesis by (simp add: s)
qed

text \<open>
  Against C1 as stated: a fault while reading the direct text of a page leaves the
  extractor and aborts the page loop of a two-page document; and a recognition fault on a
  page with direct text \<open>abc\<close> gives that text tagged \<open>text\<close>, not an empty result tagged
  \<open>none\<close>.
\<close>

theorem unit_fault_counterexample:
  "extract_text_from_page True
      \<lparr>get_text = Inl (LibraryFault ''mupdf''), image_to_string = Inr []\<rparr>
     = Inl (LibraryFault ''mupdf'')
   \<and> process_pages True 2 1
        [\<lparr>get_text = Inl (LibraryFault ''mupdf''), image_to_string = Inr []\<rparr>,
         \<lparr>get_text = Inr ''abc'', image_to_string = Inr []\<rparr>] ([], \<lambda>k. 0)
     = Inl (LibraryFault ''mupdf'')
   \<and> extract_text_from_page True
        \<lparr>get_text = Inr ''abc'', image_to_string = Inl (LibraryFault ''tesseract'')\<rparr>
     = Inr (''abc'', ''text'')"
proof -
  have s: "strip ''abc'' = ''abc''" by (simp add: strip_def isspace_def)
  show ?thesis
    by (simp add: extract_get_text_fault extract_ocr_fault s)
qed

subsection \<open>Shapes of a slide\<close>



subsection \<open>Table cells and table rows\<close>

lemma replace_chr_append:
  "replace_chr old new (a @ b) = replace_chr old new a @ replace_chr old new b"
  by (simp add: replace_chr_def)

lemma replace_chr_Cons:
  "replace_chr old new (c # cs) = (if c = old then new else [c]) @ replace_chr old new cs"
  by (simp add: replace_chr_def)

lemma replace_chr_Nil: "replace_chr old new [] = []"
  by (simp add: replace_chr_def)

lemma replace_chr_removes: "old \<notin> set new \<Longrightarrow> old \<notin> set (replace_chr old new s)"
  by (induction s) (auto simp: replace_chr_Cons replace_chr_Nil)

lemma delimiting_pipes_append:
  "delimiting_pipes esc (a @ b)
     = delimiting_pipes esc a + delimiting_pipes (if a = [] then esc else last a = CHR 0x5C) b"
  by (induction a arbitrary: esc) auto

lemma escaped_text_no_delimiter:
  "delimiting_pipes esc (replace_chr CHR ''\<newline>'' ''<br>'' (replace_chr CHR ''|'' escaped_pipe s)) = 0"
  by (induction s arbitrary: esc)
     (auto simp: replace_chr_Cons replace_chr_Nil replace_chr_append escaped_pipe_def)

lemma clean_cell_value_no_delimiter: "delimiting_pipes esc (clean_cell_value v) = 0"
  by (cases v) (simp_all add: clean_cell_value_def escaped_text_no_delimiter)

lemma clean_cell_value_no_newline: "CHR ''\<newline>'' \<notin> set (clean_cell_value v)"
  by (cases v) (simp_all add: clean_cell_value_def replace_chr_removes)

lemma delimiting_pipes_join:
  "cells \<noteq> [] \<Longrightarrow> \<forall>c\<in>set cells. \<forall>e. delimiting_pipes e c = 0 \<Longrightarrow>
   delimiting_pipes esc (join '' | '' cells @ '' |'') = length cells"
proof (induction "'' | ''" cells arbitrary: esc rule: join.induct)
  case 1
  then show ?case by simp
next
  case (2 x)
  then show ?case by (simp add: delimiting_pipes_append)
next
  case (3 x y ys)
  have "delimiting_pipes esc (x @ '' | '' @ join '' | '' (y # ys) @ '' |'')
          = delimiting_pipes esc x
            + delimiting_pipes (if x = [] then esc else last x = CHR 0x5C)
                ('' | '' @ join '' | '' (y # ys) @ '' |'')"
    by (rule delimiting_pipes_append)
  also have "\<dots> = 1 + delimiting_pipes False (join '' | '' (y # ys) @ '' |'')"
    using 3(3) by simp
  also have "\<dots> = 1 + length (y # ys)"
    using 3(1) [of False] 3(3) by simp
  finally show ?case by simp
qed

lemma delimiting_pipes_table_line:
  "cells \<noteq> [] \<Longrightarrow> \<forall>c\<in>set cells. \<forall>e. delimiting_pipes e c = 0 \<Longrightarrow>
   delimiting_pipes False (table_line cells) = length cells + 1"
  using delimiting_pipes_join [of cells False] by (simp add: table_line_def)

lemma table_line_no_newline:
  "\<forall>c\<in>set cells. CHR ''\<newline>'' \<notin> set c \<Longrightarrow> CHR ''\<newline>'' \<notin> set (table_line cells)"
  by (auto simp: table_line_def dest!: join_chars)

lemma dashes_no_delimiter: "delimiting_pipes e ''---'' = 0"
  by simp

lemma xlsx_table_rows_lines:
  assumes "0 < max_cols" and "line \<in> set (xlsx_table_rows max_cols row_idx rows)"
  shows "delimiting_pipes False line = max_cols + 1 \<and> CHR ''\<newline>'' \<notin> set line"
  using assms(2)
proof (induction rows arbitrary: row_idx)
  case Nil
  then show ?case by simp
next
  case (Cons row rest)
  define cells where
    "cells = map clean_cell_value (take max_cols row @ replicate (max_cols - length (take max_cols row)) None)"
  have len: "length cells = max_cols" by (simp add: cells_def)
  with assms(1) have ne: "cells \<noteq> []" by auto
  have safe: "\<forall>c\<in>set cells. \<forall>e. delimiting_pipes e c = 0"
    by (auto simp: cells_def clean_cell_value_no_delimiter)
  have nonl: "\<forall>c\<in>set cells. CHR ''\<newline>'' \<notin> set c"
    by (auto simp: cells_def clean_cell_value_no_newline)
  have row_ok: "delimiting_pipes False (table_line cells) = max_cols + 1"
    "CHR ''\<newline>'' \<notin> set (table_line cells)"
    using delimiting_pipes_table_line [OF ne safe] table_line_no_newline [OF nonl] len by simp_all
  have sep_ok: "delimiting_pipes False (table_line (replicate max_cols ''---'')) = max_cols + 1"
    "CHR ''\<newline>'' \<notin> set (table_line (replicate max_cols ''---''))"
    using assms(1) delimiting_pipes_table_line [of "replicate max_cols ''---''"]
      table_line_no_newline [of "replicate max_cols ''---''"] by auto
  from Cons.prems have "line = table_line cells
      \<or> line = table_line (replicate max_cols ''---'')
      \<or> line \<in> set (xlsx_table_rows max_cols (row_idx + 1) rest)"
    by (auto simp: cells_def Let_def split: if_splits)
  then show ?case using row_ok sep_ok Cons.IH by blast
qed

lemma length_xlsx_table_rows:
  "length (xlsx_table_rows max_cols row_idx rows)
     = length rows + (if row_idx = 0 \<and> rows \<noteq> [] then 1 else 0)"
  by (induction rows arbitrary: row_idx) (auto simp: Let_def)

text \<open>
  The worksheet table block is well formed: its lines are exactly the assembled rows (one
  per source row, and the separator), and each has \<open>max_cols + 1\<close> delimiting pipes.
\<close>

lemma xlsx_table_well_formed:
  assumes "0 < max_cols" and "rows \<noteq> []"
  shows "split_chr CHR ''\<newline>'' (join ''\<newline>'' (xlsx_table_rows max_cols 0 rows))
           = xlsx_table_rows max_cols 0 rows
         \<and> length (xlsx_table_rows max_cols 0 rows) = length rows + 1
         \<and> (\<forall>line\<in>set (xlsx_table_rows max_cols 0 rows).
               delimiting_pipes False line = max_cols + 1)"
proof -
  have len: "length (xlsx_table_rows max_cols 0 rows) = length rows + 1"
    using assms(2) by (simp add: length_xlsx_table_rows)
  then have ne: "xlsx_table_rows max_cols 0 rows \<noteq> []" by auto
  have "\<forall>w\<in>set (xlsx_table_rows max_cols 0 rows). \<forall>c\<in>set w. \<not> c = CHR ''\<newline>''"
    using xlsx_table_rows_lines [OF assms(1)] by blast
  with ne have "split_on (\<lambda>c. c = CHR ''\<newline>'') (join [CHR ''\<newline>''] (xlsx_table_rows max_cols 0 rows))
                  = xlsx_table_rows max_cols 0 rows"
    by (intro split_on_join) auto
  then show ?thesis
    using len xlsx_table_rows_lines [OF assms(1)] by (simp add: split_chr_def)
qed

text \<open>
  C3, at a slide table with the single cell \<open>a|b\<close>, line break, \<open>c\<close>: the pipe is escaped
  but the line break is kept, so the one source row is spread over two output lines (three
  lines with the separator row, where one row per source row would give two). The
  worksheet path turns the same cell into one line with \<open><br>\<close>.
\<close>

theorem slide_table_cell_line_break:
  "convert_table_to_markdown [[''a|b\<newline>c'']]
     = ''| a'' @ escaped_pipe @ ''b\<newline>c |\<newline>| --- |''
   \<and> split_chr CHR ''\<newline>'' (convert_table_to_markdown [[''a|b\<newline>c'']])
     = [''| a'' @ escaped_pipe @ ''b'', ''c |'', ''| --- |'']
   \<and> clean_cell_value (Some ''a|b\<newline>c'') = ''a'' @ escaped_pipe @ ''b<br>c''"
proof -
  have s: "strip ''a|b\<newline>c'' = ''a|b\<newline>c''" by (simp add: strip_def isspace_def)
  show ?thesis
    by (simp add: convert_table_to_markdown_def table_line_def replace_chr_def s
        escaped_pipe_def split_chr_def clean_cell_value_def)
qed

text \<open>
  C8, at a slide table with the single row of cells \<open>a\<close>, line break, \<open>b\<close> and \<open>c\<close>: the
  block has three lines with 1, 2 and 3 delimiting pipes, where a two-column table has
  3 on every line.
\<close>

theorem slide_table_broken_row:
  "split_chr CHR ''\<newline>'' (convert_table_to_markdown [[''a\<newline>b'', ''c'']])
     = [''| a'', ''b | c |'', ''| --- | --- |'']
   \<and> map (delimiting_pipes False) [''| a'', ''b | c |'', ''| --- | --- |''] = [1, 2, 3]"
proof -
  have s: "strip ''a\<newline>b'' = ''a\<newline>b''" "strip ''c'' = ''c''"
    by (simp_all add: strip_def isspace_def)
  show ?thesis
    by (simp add: convert_table_to_markdown_def table_line_def replace_chr_def s split_chr_def)
qed

subsection \<open>Empty rows and empty grids\<close>

lemma last_used_bounds: "last_used i cs = Some j \<Longrightarrow> i \<le> j \<and> j < i + length cs"
  by (induction cs arbitrary: i) (fastforce split: if_splits)+

lemma last_used_Some: "list_ex (\<lambda>c. c \<noteq> None) cs \<Longrightarrow> \<exists>j. last_used i cs = Some j"
  by (induction cs arbitrary: i) auto

lemma last_used_None: "\<not> list_ex (\<lambda>c. c \<noteq> None) cs \<Longrightarrow> last_used i cs = None"
  by (induction cs arbitrary: i) auto

lemma count_columns_mono: "m \<le> count_columns m rows"
proof (induction rows arbitrary: m)
  case Nil
  then show ?case by simp
next
  case (Cons row rest)
  show ?case
  proof (cases "last_used 0 (rev row)")
    case None
    then show ?thesis using Cons.IH [of m] by simp
  next
    case (Some i)
    then show ?thesis using Cons.IH [of "max m (length row - i)"] by simp
  qed
qed

lemma count_columns_pos:
  assumes "rows \<noteq> []" and "\<forall>row\<in>set rows. list_ex (\<lambda>c. c \<noteq> None) row"
  shows "0 < count_columns m rows"
proof (cases rows)
  case Nil
  with assms(1) show ?thesis by simp
next
  case (Cons row rest)
  with assms(2) have "list_ex (\<lambda>c. c \<noteq> None) (rev row)" by (simp add: list_ex_iff)
  then obtain j where j: "last_used 0 (rev row) = Some j"
    using last_used_Some by blast
  then have "j < length row" using last_used_bounds [of 0 "rev row" j] by simp
  then have "0 < max m (length row - j)" by simp
  also have "\<dots> \<le> count_columns (max m (length row - j)) rest" by (rule count_columns_mono)
  finally show ?thesis using Cons j by simp
qed

lemma join2: "join sep [a, b] = a @ sep @ b"
  by simp

text \<open>
  C5 (as amended). The worksheet table assembler drops every row all of whose cells are
  null, and a grid all of whose cells are null gives the sheet heading followed by the
  marker \<open>*Empty sheet*\<close>. A grid with some non-null cell gives the heading followed by a
  table block with at least one column, built from the rows that were kept. Only null
  counts as empty: a blank string is a value.
\<close>

theorem null_grid_marker:
  "((\<forall>row\<in>set rows. \<forall>cell\<in>set row. cell = None) \<longrightarrow>
      convert_sheet_to_markdown rows sheet_name
        = ''## '' @ sheet_name @ ''\<newline>\<newline>*Empty sheet*'')
   \<and> convert_sheet_to_markdown rows sheet_name
        = convert_sheet_to_markdown (filter (\<lambda>row. \<exists>cell\<in>set row. cell \<noteq> None) rows) sheet_name
   \<and> ((\<exists>row\<in>set rows. \<exists>cell\<in>set row. cell \<noteq> None) \<longrightarrow>
        0 < count_columns 0 (filter (\<lambda>row. \<exists>cell\<in>set row. cell \<noteq> None) rows)
        \<and> convert_sheet_to_markdown rows sheet_name
            = ''## '' @ sheet_name @ ''\<newline>\<newline>''
              @ join ''\<newline>''
                  (xlsx_table_rows
                     (count_columns 0 (filter (\<lambda>row. \<exists>cell\<in>set row. cell \<noteq> None) rows)) 0
                     (filter (\<lambda>row. \<exists>cell\<in>set row. cell \<noteq> None) rows)))"
proof -
  define kept where "kept = filter (\<lambda>row. \<exists>cell\<in>set row. cell \<noteq> None) rows"
  have kept_eq: "filter (\<lambda>row. list_ex (\<lambda>cell. cell \<noteq> None) row) rows = kept"
    by (simp add: kept_def list_ex_iff)
  have kept_idem: "filter (\<lambda>row. list_ex (\<lambda>cell. cell \<noteq> None) row) kept = kept"
    by (simp add: kept_def list_ex_iff)
  have kept_all: "\<forall>row\<in>set kept. list_ex (\<lambda>c. c \<noteq> None) row"
    by (simp add: kept_def list_ex_iff)
  have pos: "kept \<noteq> [] \<Longrightarrow> 0 < count_columns 0 kept"
    using count_columns_pos kept_all by blast
  have a: "convert_sheet_to_markdown rows sheet_name
             = ''## '' @ sheet_name @ ''\<newline>\<newline>*Empty sheet*''"
    if "\<forall>row\<in>set rows. \<forall>cell\<in>set row. cell = None"
  proof -
    from that have "kept = []" by (auto simp: kept_def filter_empty_conv)
    then show ?thesis
      using kept_eq by (simp add: convert_sheet_to_markdown_def Let_def)
  qed
  have b: "convert_sheet_to_markdown rows sheet_name = convert_sheet_to_markdown kept sheet_name"
  proof (cases "kept = []")
    case True
    then show ?thesis using kept_eq by (simp add: convert_sheet_to_markdown_def Let_def)
  next
    case False
    then have "rows \<noteq> []" by (auto simp: kept_def)
    with False show ?thesis
      using kept_eq kept_idem by (simp add: convert_sheet_to_markdown_def Let_def)
  qed
  have c: "0 < count_columns 0 kept
        \<and> convert_sheet_to_markdown rows sheet_name
            = ''## '' @ sheet_name @ ''\<newline>\<newline>''
              @ join ''\<newline>'' (xlsx_table_rows (count_columns 0 kept) 0 kept)"
    if "\<exists>row\<in>set rows. \<exists>cell\<in>set row. cell \<noteq> None"
  proof -
    from that have ne: "kept \<noteq> []" by (auto simp: kept_def filter_empty_conv)
    then have "rows \<noteq> []" by (auto simp: kept_def)
    with ne pos [OF ne] show ?thesis
      using kept_eq by (simp add: convert_sheet_to_markdown_def Let_def)
  qed
  from a b c show ?thesis unfolding kept_def by blast
qed

lemma strip_blank: "strip [] = []" "strip '' '' = []" "strip ''a'' = ''a''"
  by (simp_all add: strip_def isspace_def)

theorem null_grid_marker_witness:
  "convert_sheet_to_markdown [[None, None], [None]] ''S'' = ''## S\<newline>\<newline>*Empty sheet*''
   \<and> convert_sheet_to_markdown [[None], [Some ''a'', None]] ''S'' = ''## S\<newline>\<newline>| a |\<newline>| --- |''"
proof -
  have f1: "filter (\<lambda>row. \<exists>cell\<in>set row. cell \<noteq> None) [[None], [Some ''a'', None]] = [[Some ''a'', None]]"
    by simp
  have cc: "count_columns 0 [[Some ''a'', None :: cell]] = 1" by simp
  have t: "xlsx_table_rows 1 0 [[Some ''a'', None]] = [''| a |'', ''| --- |'']"
    by (simp add: table_line_def clean_cell_value_def replace_chr_def strip_blank)
  have w1: "convert_sheet_to_markdown [[None, None], [None]] ''S'' = ''## S\<newline>\<newline>*Empty sheet*''"
    using null_grid_marker [of "[[None, None], [None]]" "''S''", THEN conjunct1] by simp
  have w2: "convert_sheet_to_markdown [[None], [Some ''a'', None]] ''S'' = ''## S\<newline>\<newline>| a |\<newline>| --- |''"
    using null_grid_marker [of "[[None], [Some ''a'', None]]" "''S''", THEN conjunct2, THEN conjunct2]
    unfolding f1 cc t by simp
  from w1 w2 show ?thesis by simp
qed

text \<open>
  Against C5 as stated: a worksheet grid whose cells are all blank strings is rendered as
  a table of empty cells with both rows kept, not as the marker; and a slide table of
  empty cells is rendered as a table as well.
\<close>

theorem blank_cells_counterexample:
  "convert_sheet_to_markdown [[Some []], [Some '' '']] ''S''
     = ''## S\<newline>\<newline>|  |\<newline>| --- |\<newline>|  |''
   \<and> convert_table_to_markdown [[''''], ['''']] = ''|  |\<newline>| --- |\<newline>|  |''"
  by (simp add: convert_sheet_to_markdown_def convert_table_to_markdown_def table_line_def
      clean_cell_value_def replace_chr_def strip_blank)

subsection \<open>Per-unit headings\<close>

lemma str_nat_digits:
  "str_nat 1 = ''1''" "str_nat 2 = ''2''" "str_nat (Suc 0) = ''1''" "str_nat (Suc (Suc 0)) = ''2''"
  by (simp_all add: str_nat.simps)

lemma join_Cons_prefix: "\<exists>rest. join sep (x # xs) = x @ rest"
  by (cases xs) auto

lemma process_pages_one:
  assumes "extract_text_from_page avail p = Inr (t, m)"
  shows "map_sum id fst (process_pages avail 1 1 [p] (md_parts, mu))
           = Inr (md_parts @ (if t = [] then [] else [clean_text_for_markdown t]))"
  using assms by simp

lemma process_pages_two:
  assumes "extract_text_from_page avail p1 = Inr (t1, m1)"
      and "extract_text_from_page avail p2 = Inr (t2, m2)"
  shows "map_sum id fst (process_pages avail 2 1 [p1, p2] (md_parts, mu))
           = Inr (md_parts
                  @ (if t1 = [] then [] else [''## Page 1'', clean_text_for_markdown t1, ''---''])
                  @ (if t2 = [] then [] else [''## Page 2'', clean_text_for_markdown t2, ''---'']))"
  using assms by (simp add: str_nat_digits)

lemma slide_heading:
  assumes "convert_slide_to_markdown sl n = Inr md"
  shows "\<exists>rest. md = ''## Slide '' @ str_nat n @ rest"
proof -
  from assms have "\<exists>parts. md = join ''\<newline>\<newline>'' ((''## Slide '' @ str_nat n) # parts)"
    unfolding convert_slide_to_markdown_def Let_def
    by (auto split: sum.splits simp del: join.simps)
  then obtain parts where "md = join ''\<newline>\<newline>'' ((''## Slide '' @ str_nat n) # parts)"
    by blast
  then show ?thesis
    using join_Cons_prefix [of "''\<newline>\<newline>''" "''## Slide '' @ str_nat n" parts] by auto
qed

lemma sheet_heading: "\<exists>rest. convert_sheet_to_markdown rows nm = ''## '' @ nm @ rest"
  by (simp add: convert_sheet_to_markdown_def Let_def)


lemma process_slides_all:
  "length mds = length sls \<Longrightarrow>
   \<forall>i<length sls. convert_slide_to_markdown (sls ! i) (n + i) = Inr (mds ! i) \<Longrightarrow>
   process_slides n sls md_parts = Inr (md_parts @ concat (map (\<lambda>md. [md, ''---'']) mds))"
proof (induction sls arbitrary: n mds md_parts)
  case Nil
  then show ?case by simp
next
  case (Cons sl rest)
  then obtain md mds' where mds: "mds = md # mds'" by (cases mds) auto
  from Cons.prems(2) have first: "convert_slide_to_markdown sl n = Inr md"
    using mds by fastforce
  have later: "\<forall>i<length rest. convert_slide_to_markdown (rest ! i) (n + 1 + i) = Inr (mds' ! i)"
  proof (intro allI impI)
    fix i assume "i < length rest"
    then have "Suc i < length (sl # rest)" by simp
    with Cons.prems(2) have "convert_slide_to_markdown ((sl # rest) ! Suc i) (n + Suc i) = Inr (mds ! Suc i)"
      by blast
    then show "convert_slide_to_markdown (rest ! i) (n + 1 + i) = Inr (mds' ! i)"
      using mds by simp
  qed
  from Cons.prems(1) mds have len: "length mds' = length rest" by simp
  from Cons.IH [OF len later, of "md_parts @ [md, ''---'']"] first mds
  show ?case by simp
qed

lemma process_sheets_all:
  "\<forall>g\<in>set gs. map_of shs (fst g) = Some (Worksheet (snd g)) \<Longrightarrow>
   process_sheets shs (map fst gs) md_parts
     = Inr (md_parts @ concat (map (\<lambda>g. [convert_sheet_to_markdown (snd g) (fst g), ''---'']) gs))"
  by (induction gs arbitrary: md_parts) (auto simp: iter_rows_def)

lemma worksheets_lookup:
  assumes "distinct (map fst gs)" and "g \<in> set gs"
  shows "map_of (map (\<lambda>g. (fst g, Worksheet (snd g))) gs) (fst g) = Some (Worksheet (snd g))"
proof (rule map_of_is_SomeI)
  show "distinct (map fst (map (\<lambda>g. (fst g, Worksheet (snd g))) gs))"
    using assms(1) by (simp add: comp_def)
  show "(fst g, Worksheet (snd g)) \<in> set (map (\<lambda>g. (fst g, Worksheet (snd g))) gs)"
    using assms(2) by auto
qed

text \<open>A chart sheet ends the sheet loop with the fault of its missing \<open>iter_rows\<close>.\<close>

lemma chart_sheet_aborts:
  "map_of shs sheet_name = Some Chartsheet \<Longrightarrow>
   process_sheets shs (sheet_name # rest) md_parts = Inl AttributeError"
  by (simp add: iter_rows_def)

text \<open>
  C4 (as amended). For a paginated document: with exactly one page the page loop adds no
  heading, only the cleaned text of the page when that text is non-empty; with exactly two
  pages it adds, for each page whose extracted text is non-empty, the heading
  \<open>## Page 1\<close> respectively \<open>## Page 2\<close>, the cleaned text and a rule, in page order.
  Slide decks and workbooks head every unit, whatever the number of units: the slide loop
  appends, for every slide in order, the block of the slide, which starts with
  \<open>## Slide n\<close> for its ordinal \<open>n\<close>, and a rule (so a deck of one slide has
  \<open>## Slide 1\<close>, and a deck of two has \<open>## Slide 1\<close> then \<open>## Slide 2\<close>); the sheet loop
  appends, for every worksheet in order, the block of the sheet, which starts with
  \<open>## \<close> and the sheet name, and a rule.
\<close>

theorem unit_headings:
  "(extract_text_from_page avail p1 = Inr (t1, m1) \<longrightarrow>
      map_sum id fst (process_pages avail 1 1 [p1] (md_parts, mu))
        = Inr (md_parts @ (if t1 = [] then [] else [clean_text_for_markdown t1])))
   \<and> (extract_text_from_page avail p1 = Inr (t1, m1)
        \<and> extract_text_from_page avail p2 = Inr (t2, m2) \<longrightarrow>
      map_sum id fst (process_pages avail 2 1 [p1, p2] (md_parts, mu))
        = Inr (md_parts
               @ (if t1 = [] then [] else [''## Page 1'', clean_text_for_markdown t1, ''---''])
               @ (if t2 = [] then [] else [''## Page 2'', clean_text_for_markdown t2, ''---''])))
   \<and> (convert_slide_to_markdown sl n = Inr md \<longrightarrow>
        (\<exists>rest. md = ''## Slide '' @ str_nat n @ rest)
        \<and> process_slides n [sl] md_parts = Inr (md_parts @ [md, ''---'']))
   \<and> (convert_slide_to_markdown sl1 1 = Inr md1 \<and> convert_slide_to_markdown sl2 2 = Inr md2 \<longrightarrow>
        process_slides 1 [sl1, sl2] md_parts = Inr (md_parts @ [md1, ''---'', md2, ''---''])
        \<and> (\<exists>rest. md1 = ''## Slide 1'' @ rest) \<and> (\<exists>rest. md2 = ''## Slide 2'' @ rest))
   \<and> (length mds = length sls
        \<and> (\<forall>i<length sls. convert_slide_to_markdown (sls ! i) (n + i) = Inr (mds ! i)) \<longrightarrow>
        process_slides n sls md_parts
          = Inr (md_parts @ concat (map (\<lambda>md. [md, ''---'']) mds))
        \<and> (\<forall>i<length sls. \<exists>rest. mds ! i = ''## Slide '' @ str_nat (n + i) @ rest))
   \<and> (\<exists>rest. convert_sheet_to_markdown rows sheet_name = ''## '' @ sheet_name @ rest)
   \<and> (distinct (map fst gs) \<longrightarrow>
        process_sheets (map (\<lambda>g. (fst g, Worksheet (snd g))) gs) (map fst gs) md_parts
          = Inr (md_parts
                 @ concat (map (\<lambda>g. [convert_sheet_to_markdown (snd g) (fst g), ''---'']) gs)))"
proof (intro conjI impI)
  assume "extract_text_from_page avail p1 = Inr (t1, m1)"
  then show "map_sum id fst (process_pages avail 1 1 [p1] (md_parts, mu))
        = Inr (md_parts @ (if t1 = [] then [] else [clean_text_for_markdown t1]))"
    by (rule process_pages_one)
next
  assume "extract_text_from_page avail p1 = Inr (t1, m1)
        \<and> extract_text_from_page avail p2 = Inr (t2, m2)"
  then show "map_sum id fst (process_pages avail 2 1 [p1, p2] (md_parts, mu))
        = Inr (md_parts
               @ (if t1 = [] then [] else [''## Page 1'', clean_text_for_markdown t1, ''---''])
               @ (if t2 = [] then [] else [''## Page 2'', clean_text_for_markdown t2, ''---'']))"
    using process_pages_two by blast
next
  assume "convert_slide_to_markdown sl n = Inr md"
  then show "\<exists>rest. md = ''## Slide '' @ str_nat n @ rest"
    by (rule slide_heading)
next
  assume "convert_slide_to_markdown sl n = Inr md"
  then show "process_slides n [sl] md_parts = Inr (md_parts @ [md, ''---''])"
    by simp
next
  assume a: "convert_slide_to_markdown sl1 1 = Inr md1 \<and> convert_slide_to_markdown sl2 2 = Inr md2"
  then have "convert_slide_to_markdown sl1 (Suc 0) = Inr md1"
    and "convert_slide_to_markdown sl2 (Suc (Suc 0)) = Inr md2"
    by (simp_all add: numeral_2_eq_2)
  then show "process_slides 1 [sl1, sl2] md_parts = Inr (md_parts @ [md1, ''---'', md2, ''---''])"
    by simp
  from a show "\<exists>rest. md1 = ''## Slide 1'' @ rest"
    using slide_heading [of sl1 1 md1] by (simp add: str_nat_digits)
  from a show "\<exists>rest. md2 = ''## Slide 2'' @ rest"
    using slide_heading [of sl2 2 md2] by (simp add: str_nat_digits)
next
  assume a: "length mds = length sls
        \<and> (\<forall>i<length sls. convert_slide_to_markdown (sls ! i) (n + i) = Inr (mds ! i))"
  then show "process_slides n sls md_parts
          = Inr (md_parts @ concat (map (\<lambda>md. [md, ''---'']) mds))"
    using process_slides_all by blast
  from a show "\<forall>i<length sls. \<exists>rest. mds ! i = ''## Slide '' @ str_nat (n + i) @ rest"
    using slide_heading by blast
next
  show "\<exists>rest. convert_sheet_to_markdown rows sheet_name = ''## '' @ sheet_name @ rest"
    by (rule sheet_heading)
next
  assume "distinct (map fst gs)"
  then have "\<forall>g\<in>set gs. map_of (map (\<lambda>g. (fst g, Worksheet (snd g))) gs) (fst g)
                = Some (Worksheet (snd g))"
    using worksheets_lookup by blast
  then show "process_sheets (map (\<lambda>g. (fst g, Worksheet (snd g))) gs) (map fst gs) md_parts
          = Inr (md_parts
                 @ concat (map (\<lambda>g. [convert_sheet_to_markdown (snd g) (fst g), ''---'']) gs))"
    by (rule process_sheets_all)
qed

theorem unit_headings_witness:
  "map_sum id fst
     (process_pages False 1 1 [\<lparr>get_text = Inr ''abc'', image_to_string = Inr []\<rparr>] ([], \<lambda>k. 0))
     = Inr [''abc'']
   \<and> map_sum id fst
       (process_pages False 2 1
          [\<lparr>get_text = Inr ''abc'', image_to_string = Inr []\<rparr>,
           \<lparr>get_text = Inr ''abc'', image_to_string = Inr []\<rparr>] ([], \<lambda>k. 0))
     = Inr [''## Page 1'', ''abc'', ''---'', ''## Page 2'', ''abc'', ''---'']
   \<and> process_slides 1
       [\<lparr>title = None, shapes = [], has_notes_slide = False, notes_text_frame = None\<rparr>] []
     = Inr [''## Slide 1'', ''---'']
   \<and> process_slides 1
       [\<lparr>title = None, shapes = [], has_notes_slide = False, notes_text_frame = None\<rparr>,
        \<lparr>title = None, shapes = [], has_notes_slide = False, notes_text_frame = None\<rparr>] []
     = Inr [''## Slide 1'', ''---'', ''## Slide 2'', ''---'']
   \<and> process_sheets [(''S'', Worksheet [[Some ''a'']]), (''T'', Worksheet [])] [''S'', ''T''] []
     = Inr [''## S\<newline>\<newline>| a |\<newline>| --- |'', ''---'',
            ''## T\<newline>\<newline>*Empty sheet*'', ''---'']"
proof -
  let ?p = "\<lparr>get_text = Inr ''abc'', image_to_string = Inr []\<rparr>"
  let ?sl = "\<lparr>title = None, shapes = [], has_notes_slide = False, notes_text_frame = None\<rparr>"
  let ?gs = "[(''S'', [[Some ''a'']]), (''T'', [])] :: (string \<times> cell list list) list"
  have s: "strip ''abc'' = ''abc''" "strip ''a'' = ''a''" by (simp_all add: strip_def isspace_def)
  have e: "extract_text_from_page False ?p = Inr (''abc'', ''text'')"
    by (simp add: extract_text_from_page_def s)
  have c: "clean_text_for_markdown ''abc'' = ''abc''"
    by (simp add: clean_text_for_markdown_def split_chr_def clean_line_def s split_ws_def isspace_def)
  have sl1: "convert_slide_to_markdown ?sl 1 = Inr ''## Slide 1''"
    by (simp add: convert_slide_to_markdown_def str_nat_digits)
  have sl2: "convert_slide_to_markdown ?sl 2 = Inr ''## Slide 2''"
    by (simp add: convert_slide_to_markdown_def str_nat_digits)
  have all: "\<forall>i<length [?sl, ?sl].
      convert_slide_to_markdown ([?sl, ?sl] ! i) (1 + i) = Inr ([''## Slide 1'', ''## Slide 2''] ! i)"
    using sl1 sl2 by (auto simp: less_Suc_eq numeral_2_eq_2)
  have d: "distinct (map fst ?gs)" by simp
  have g1: "convert_sheet_to_markdown [[Some ''a'']] ''S'' = ''## S\<newline>\<newline>| a |\<newline>| --- |''"
    by (simp add: convert_sheet_to_markdown_def table_line_def clean_cell_value_def replace_chr_def s)
  have g2: "convert_sheet_to_markdown [] ''T'' = ''## T\<newline>\<newline>*Empty sheet*''"
    by (simp add: convert_sheet_to_markdown_def)
  note u = unit_headings [where avail = False and ?p1.0 = ?p and ?t1.0 = "''abc''"
      and ?m1.0 = "''text''" and md_parts = "[]" and mu = "\<lambda>k. 0" and ?p2.0 = ?p
      and ?t2.0 = "''abc''" and ?m2.0 = "''text''" and sl = ?sl and n = 1
      and md = "''## Slide 1''" and ?sl1.0 = ?sl and ?md1.0 = "''## Slide 1''"
      and ?sl2.0 = ?sl and ?md2.0 = "''## Slide 2''"
      and mds = "[''## Slide 1'', ''## Slide 2'']" and sls = "[?sl, ?sl]"
      and rows = "[]" and sheet_name = "''T''" and gs = ?gs]
  from u e have w1: "map_sum id fst (process_pages False 1 1 [?p] ([], \<lambda>k. 0)) = Inr [''abc'']"
    by (simp add: c)
  from u e have w2: "map_sum id fst (process_pages False 2 1 [?p, ?p] ([], \<lambda>k. 0))
      = Inr [''## Page 1'', ''abc'', ''---'', ''## Page 2'', ''abc'', ''---'']"
    by (simp add: c)
  from u sl1 have w3: "process_slides 1 [?sl] [] = Inr [''## Slide 1'', ''---'']"
    by simp
  from u all have w4: "process_slides 1 [?sl, ?sl] []
      = Inr [''## Slide 1'', ''---'', ''## Slide 2'', ''---'']"
    by simp
  from u d have w5: "process_sheets [(''S'', Worksheet [[Some ''a'']]), (''T'', Worksheet [])] [''S'', ''T''] []
      = Inr [''## S\<newline>\<newline>| a |\<newline>| --- |'', ''---'', ''## T\<newline>\<newline>*Empty sheet*'', ''---'']"
    by (simp add: g1 g2)
  from w1 w2 w3 w4 w5 show ?thesis by simp
qed

text \<open>
  Against C4 as stated: a deck of a single (empty) slide gets the heading \<open>## Slide 1\<close>,
  and a workbook of a single sheet gets the heading \<open>## S\<close>.
\<close>

theorem single_unit_heading_counterexample:
  "process_slides 1
     [\<lparr>title = None, shapes = [], has_notes_slide = False, notes_text_frame = None\<rparr>] []
     = Inr [''## Slide 1'', ''---'']
   \<and> process_sheets [(''S'', Worksheet [[Some ''a'']])] [''S''] []
     = Inr [''## S\<newline>\<newline>| a |\<newline>| --- |'', ''---'']"
proof -
  have s: "strip ''a'' = ''a''" by (simp add: strip_def isspace_def)
  show ?thesis
    by (simp add: convert_slide_to_markdown_def str_nat_digits convert_sheet_to_markdown_def
        iter_rows_def table_line_def clean_cell_value_def replace_chr_def s)
qed

subsection \<open>Batch conversion\<close>

lemma batch_loop_eq:
  "batch_loop convert files converted
     = converted @ map (\<lambda>f. fst (projr (convert f))) (filter (\<lambda>f. \<not> isl (convert f)) files)"
  by (induction files arbitrary: converted) (auto split: sum.splits)

lemma convert_pdf_output_path:
  "convert_pdf_to_markdown str_title avail fs f None = Inr r \<Longrightarrow> fst r = with_suffix f ''.md''"
  by (auto simp: convert_pdf_to_markdown_def Let_def split: if_splits sum.splits option.splits)

lemma convert_pptx_output_path:
  "convert_pptx_to_markdown str_title fs f None = Inr r \<Longrightarrow> fst r = with_suffix f ''.md''"
  by (auto simp: convert_pptx_to_markdown_def Let_def split: if_splits sum.splits option.splits)

lemma map_projr_filter:
  assumes "\<And>f r. convert f = Inr r \<Longrightarrow> fst r = g f"
  shows "map (\<lambda>f. fst (projr (convert f))) (filter (\<lambda>f. \<not> isl (convert f)) files)
           = map g (filter (\<lambda>f. \<not> isl (convert f)) files)"
proof (rule map_cong [OF refl])
  fix f assume "f \<in> set (filter (\<lambda>f. \<not> isl (convert f)) files)"
  then have "\<not> isl (convert f)" by simp
  then obtain r where "convert f = Inr r" by (cases "convert f") auto
  then show "fst (projr (convert f)) = g f" using assms by simp
qed

text \<open>
  C6 (as amended). On a directory, batch conversion takes the files that \<open>glob\<close> yields for
  the pattern, in the order \<open>glob\<close> yields them, converts each, and returns the output
  paths (the input path with suffix \<open>.md\<close>) of exactly those files whose conversion
  succeeded, in that order. A failed conversion is caught and contributes no entry; the
  call itself returns normally.
\<close>

theorem batch_convert_outcomes:
  "is_dir fld \<longrightarrow>
     batch_convert_pdf str_title avail fs fld
       = Inr (map (\<lambda>f. with_suffix f ''.md'')
                (filter (\<lambda>f. \<not> isl (convert_pdf_to_markdown str_title avail fs f None))
                   (glob fld ''*.pdf'')))
     \<and> batch_convert_pptx str_title fs' fld
       = Inr (map (\<lambda>f. with_suffix f ''.md'')
                (filter (\<lambda>f. \<not> isl (convert_pptx_to_markdown str_title fs' f None))
                   (glob fld ''*.pptx'')))"
proof (intro impI conjI)
  assume d: "is_dir fld"
  show "batch_convert_pdf str_title avail fs fld
       = Inr (map (\<lambda>f. with_suffix f ''.md'')
                (filter (\<lambda>f. \<not> isl (convert_pdf_to_markdown str_title avail fs f None))
                   (glob fld ''*.pdf'')))"
    using d map_projr_filter [of "\<lambda>f. convert_pdf_to_markdown str_title avail fs f None"
        "\<lambda>f. with_suffix f ''.md''" "glob fld ''*.pdf''"] convert_pdf_output_path
    by (simp add: batch_convert_pdf_def batch_loop_eq Let_def)
  show "batch_convert_pptx str_title fs' fld
       = Inr (map (\<lambda>f. with_suffix f ''.md'')
                (filter (\<lambda>f. \<not> isl (convert_pptx_to_markdown str_title fs' f None))
                   (glob fld ''*.pptx'')))"
    using d map_projr_filter [of "\<lambda>f. convert_pptx_to_markdown str_title fs' f None"
        "\<lambda>f. with_suffix f ''.md''" "glob fld ''*.pptx''"] convert_pptx_output_path
    by (simp add: batch_convert_pptx_def batch_loop_eq Let_def)
qed

lemma lower_pdf: "lower ''.pdf'' = ''.pdf''" "lower ''.pptx'' = ''.pptx''"
  by (simp_all add: lower_def lower_chr_def)

text \<open>
  Against C6 as stated: for a directory listed as \<open>b.pdf\<close>, \<open>a.pdf\<close> in which \<open>a.pdf\<close>
  is corrupt, the call returns the single entry \<open>b.md\<close>, not one success and one failure
  outcome; and when both files are valid it returns \<open>b.md\<close> before \<open>a.md\<close>, the listing
  order and not the lexical one.
\<close>

theorem batch_outcomes_counterexample:
  "batch_convert_pdf (\<lambda>s. s) False
     \<lparr>exists = \<lambda>p. True,
      open_document = \<lambda>p. if stem p = ''a'' then Inl (LibraryFault ''corrupt'')
                          else Inr \<lparr>metadata = Map.empty, pages = []\<rparr>,
      write_text = \<lambda>p c. None\<rparr>
     \<lparr>is_dir = True,
      glob = \<lambda>pattern. [\<lparr>parent = ''docs'', stem = ''b'', suffix = ''.pdf''\<rparr>,
                         \<lparr>parent = ''docs'', stem = ''a'', suffix = ''.pdf''\<rparr>]\<rparr>
     = Inr [\<lparr>parent = ''docs'', stem = ''b'', suffix = ''.md''\<rparr>]
   \<and> batch_convert_pdf (\<lambda>s. s) False
     \<lparr>exists = \<lambda>p. True,
      open_document = \<lambda>p. Inr \<lparr>metadata = Map.empty, pages = []\<rparr>,
      write_text = \<lambda>p c. None\<rparr>
     \<lparr>is_dir = True,
      glob = \<lambda>pattern. [\<lparr>parent = ''docs'', stem = ''b'', suffix = ''.pdf''\<rparr>,
                         \<lparr>parent = ''docs'', stem = ''a'', suffix = ''.pdf''\<rparr>]\<rparr>
     = Inr [\<lparr>parent = ''docs'', stem = ''b'', suffix = ''.md''\<rparr>,
            \<lparr>parent = ''docs'', stem = ''a'', suffix = ''.md''\<rparr>]"
  by (simp add: batch_convert_pdf_def convert_pdf_to_markdown_def lower_pdf with_suffix_def Let_def)

theorem batch_convert_outcomes_witness:
  "batch_convert_pdf (\<lambda>s. s) False
     \<lparr>exists = \<lambda>p. True,
      open_document = \<lambda>p. if stem p = ''b'' then Inl (LibraryFault ''corrupt'')
                          else Inr \<lparr>metadata = Map.empty, pages = []\<rparr>,
      write_text = \<lambda>p c. None\<rparr>
     \<lparr>is_dir = True,
      glob = \<lambda>pattern. [\<lparr>parent = ''docs'', stem = ''a'', suffix = ''.pdf''\<rparr>,
                         \<lparr>parent = ''docs'', stem = ''b'', suffix = ''.pdf''\<rparr>]\<rparr>
     = Inr [\<lparr>parent = ''docs'', stem = ''a'', suffix = ''.md''\<rparr>]"
proof -
  let ?fs = "\<lparr>exists = \<lambda>p. True,
      open_document = \<lambda>p. if stem p = ''b'' then Inl (LibraryFault ''corrupt'')
                          else Inr \<lparr>metadata = Map.empty, pages = []\<rparr>,
      write_text = \<lambda>p c. None\<rparr>"
  let ?fld = "\<lparr>is_dir = True,
      glob = \<lambda>pattern. [\<lparr>parent = ''docs'', stem = ''a'', suffix = ''.pdf''\<rparr>,
                         \<lparr>parent = ''docs'', stem = ''b'', suffix = ''.pdf''\<rparr>]\<rparr>"
  have d: "is_dir ?fld" by simp
  let ?fs' = "\<lparr>exists = \<lambda>p. False,
      open_document = \<lambda>p. (Inl FileNotFoundError :: error + presentation),
      write_text = \<lambda>p c. None\<rparr>"
  from batch_convert_outcomes [of ?fld "\<lambda>s. s" False ?fs ?fs', THEN mp, OF d, THEN conjunct1]
  show ?thesis
    by (simp add: convert_pdf_to_markdown_def lower_pdf with_suffix_def Let_def)
qed

end
